theory Spec2Isabelle
  imports Complex_Main "HOL-Library.Log_Nat"
begin

section \<open>Data model of \<^verbatim>\<open>web/src/App.tsx\<close>\<close>

text \<open>
  The component keeps its state in React hooks. The model gathers every hook value that the
  handlers read or write in one record and turns each handler into a function from the state
  before the event to the state after it. Notifications (\<^verbatim>\<open>toast\<close>) and the create
  requests issued by \<^verbatim>\<open>SaveHazard\<close> are recorded in the state in the order in
  which the handler produces them. The coordinates that the handlers only store and pass on
  are reals; the popup handler computes with longitudes, and there they are IEEE doubles.
\<close>

subsection \<open>Hazard options\<close>

text \<open>\<^verbatim>\<open>interface Option { value: string, label: string }\<close>\<close>

record hazard_option =
  opt_value :: string
  opt_label :: string

definition hazardOptions :: "hazard_option list" where
  "hazardOptions =
     [\<lparr>opt_value = ''FLOODED_ROAD'', opt_label = ''Flooded Road''\<rparr>,
      \<lparr>opt_value = ''TREE_DOWN'', opt_label = ''Tree Down''\<rparr>,
      \<lparr>opt_value = ''OTHER'', opt_label = ''Other''\<rparr>]"

subsection \<open>The heatmap layer\<close>

datatype interpolation = Linear

datatype expr_input = Zoom | Get string | HeatmapDensity

text \<open>\<^verbatim>\<open>['interpolate', ['linear'], input, stop, output, stop, output, ...]\<close>\<close>

datatype 'out expression = Interpolate interpolation expr_input "(real \<times> 'out) list"

fun stops :: "'out expression \<Rightarrow> (real \<times> 'out) list" where
  "stops (Interpolate _ _ ss) = ss"

record heatmap_paint =
  heatmap_weight :: "real expression"
  heatmap_intensity :: "real expression"
  heatmap_color :: "string expression"
  heatmap_radius :: "real expression"
  heatmap_opacity :: "real expression"

record heatmap_layer =
  layer_id :: string
  maxzoom :: real
  layer_type :: string
  paint :: heatmap_paint

definition MAX_HEATMAP_LEVEL :: real where
  "MAX_HEATMAP_LEVEL = 9"

definition heatmapLayer :: heatmap_layer where
  "heatmapLayer =
     \<lparr>layer_id = ''heatmap'',
      maxzoom = MAX_HEATMAP_LEVEL,
      layer_type = ''heatmap'',
      paint =
        \<lparr>heatmap_weight = Interpolate Linear (Get ''mag'') [(0, 0), (6, 1)],
         heatmap_intensity = Interpolate Linear Zoom [(0, 1), (MAX_HEATMAP_LEVEL, 3)],
         heatmap_color = Interpolate Linear HeatmapDensity
           [(0, ''rgba(33,102,172,0)''),
            (0.2, ''rgb(103,169,207)''),
            (0.4, ''rgb(209,229,240)''),
            (0.6, ''rgb(253,219,199)''),
            (0.8, ''rgb(239,138,98)''),
            (0.9, ''rgb(255,201,101)'')],
         heatmap_radius = Interpolate Linear Zoom [(0, 2), (MAX_HEATMAP_LEVEL, 20)],
         heatmap_opacity = Interpolate Linear Zoom [(7, 1), (MAX_HEATMAP_LEVEL, 0)]\<rparr>\<rparr>"

subsection \<open>Hazards, the cached collection and the component state\<close>

text \<open>
  A feature as the handlers read it: \<^verbatim>\<open>geometry.coordinates\<close>,
  \<^verbatim>\<open>properties.hazardType\<close> and \<^verbatim>\<open>properties.createdAt\<close>.
\<close>

record feature =
  coordinates :: "real list"
  f_hazardType :: string
  createdAt :: string

text \<open>
  The value \<^verbatim>\<open>data\<close> that \<^verbatim>\<open>useSWR('/hazards', fetcher)\<close> returns is
  untyped JSON. The code reads three of its properties: \<^verbatim>\<open>data.type\<close> and
  \<^verbatim>\<open>data.features\<close> in the updater of \<^verbatim>\<open>submitHazardForm\<close>, and
  \<^verbatim>\<open>data.geojson.features\<close> in the render. A property that the object does not have
  (\<^verbatim>\<open>undefined\<close>) is \<open>None\<close>.
\<close>

record geojson_object =
  gj_features :: "feature list"

record hazards_data =
  d_type :: "string option"
  d_features :: "feature list option"
  d_geojson :: "geojson_object option"

text \<open>The body of the create request and the request itself (body and bearer token).\<close>

record hazard_body =
  b_lat :: real
  b_lng :: real
  b_hazardType :: string
  b_notes :: string

record save_request =
  body :: hazard_body
  token :: string

datatype toast =
  ToastError string nat
  | ToastLoading string
  | ToastSuccess string nat

datatype js_error = TypeError

record app_state =
  drawPoint :: bool
  lng :: real
  lat :: real
  hazardType :: hazard_option
  isAuthenticated :: bool
  accessToken :: "string option"
  form_notes :: string
  data :: "hazards_data option"
  toasts :: "toast list"
  requests :: "save_request list"

text \<open>The initial values of the hooks; nothing is fetched yet and nobody is logged in.\<close>

definition initial_state :: app_state where
  "initial_state =
     \<lparr>drawPoint = False,
      lng = 143.8503,
      lat = -37.5622,
      hazardType = hd hazardOptions,
      isAuthenticated = False,
      accessToken = None,
      form_notes = '''',
      data = None,
      toasts = [],
      requests = []\<rparr>"

section \<open>The handlers\<close>

subsection \<open>Viewport\<close>

record view_state =
  latitude :: real
  longitude :: real
  zoom :: real

text \<open>\<^verbatim>\<open>updateMapCenterCoordinates\<close>: \<^verbatim>\<open>setLat\<close>, then \<^verbatim>\<open>setLng\<close>.\<close>

definition updateMapCenterCoordinates :: "app_state \<Rightarrow> view_state \<Rightarrow> app_state" where
  "updateMapCenterCoordinates st ev = (st\<lparr>lat := latitude ev\<rparr>)\<lparr>lng := longitude ev\<rparr>"

text \<open>
  The view state that the component hands to the map:
  \<^verbatim>\<open>initialViewState={{ longitude: lng, latitude: lat, zoom: 4 }}\<close>.
\<close>

definition initialViewState :: "app_state \<Rightarrow> view_state" where
  "initialViewState st = \<lparr>latitude = lat st, longitude = lng st, zoom = 4\<rparr>"

subsection \<open>The report form\<close>

text \<open>
  \<^verbatim>\<open>handleHazardOptionSelected\<close>: the notes are cleared first, then the option is looked
  up with \<^verbatim>\<open>Array.prototype.find\<close> and stored when it exists.
\<close>

definition handleHazardOptionSelected :: "app_state \<Rightarrow> string \<Rightarrow> app_state" where
  "handleHazardOptionSelected st v =
     (let st1 = st\<lparr>form_notes := ''''\<rparr> in
      case find (\<lambda>option. opt_value option = v) hazardOptions of
        Some option \<Rightarrow> st1\<lparr>hazardType := option\<rparr>
      | None \<Rightarrow> st1)"

definition resetHazardForm :: "app_state \<Rightarrow> app_state" where
  "resetHazardForm st = st\<lparr>drawPoint := False\<rparr>"

definition toggleDrawPoint :: "app_state \<Rightarrow> app_state" where
  "toggleDrawPoint st =
     (if \<not> isAuthenticated st
      then st\<lparr>toasts := toasts st @ [ToastError ''Login to add a hazard.'' 3000]\<rparr>
      else st\<lparr>drawPoint := \<not> drawPoint st\<rparr>)"

subsection \<open>Submitting a hazard\<close>

text \<open>
  The synchronous part of \<^verbatim>\<open>submitHazardForm\<close>. Without a token it shows an error and
  returns. With a token it calls \<^verbatim>\<open>mutate\<close> with an asynchronous updater, which runs up
  to its first \<^verbatim>\<open>await\<close>: \<^verbatim>\<open>SaveHazard\<close> issues the request and
  \<^verbatim>\<open>toast.promise\<close> shows the loading notification. Then \<^verbatim>\<open>resetHazardForm\<close>
  runs. No \<^verbatim>\<open>optimisticData\<close> is given to \<^verbatim>\<open>mutate\<close>, and the value
  that the updater returns depends on the response, so the cached \<^verbatim>\<open>data\<close> is not
  written here. \<^verbatim>\<open>event.preventDefault()\<close> only stops the browser from sending the
  form and is left out.
\<close>

definition submitHazardForm :: "app_state \<Rightarrow> app_state" where
  "submitHazardForm st =
     (case accessToken st of
        None \<Rightarrow> st\<lparr>toasts := toasts st @ [ToastError ''Login to add hazards.'' 3000]\<rparr>
      | Some tok \<Rightarrow>
          resetHazardForm
            (st\<lparr>requests := requests st @
                   [\<lparr>body = \<lparr>b_lat = lat st, b_lng = lng st,
                             b_hazardType = opt_value (hazardType st), b_notes = form_notes st\<rparr>,
                     token = tok\<rparr>],
                 toasts := toasts st @ [ToastLoading ''Loading...'']\<rparr>))"

text \<open>
  The rest of the updater, which runs once the request has resolved with \<open>newHazard\<close>:
  \<^verbatim>\<open>return { type: data.type, features: [...data.features, newHazard] }\<close>, where
  \<^verbatim>\<open>data\<close> is the value the render that created the handler saw. Reading a property of
  \<^verbatim>\<open>undefined\<close> and spreading \<^verbatim>\<open>undefined\<close> into an array both throw a
  \<^verbatim>\<open>TypeError\<close>.
\<close>

definition hazardsUpdater :: "hazards_data option \<Rightarrow> feature \<Rightarrow> js_error + hazards_data" where
  "hazardsUpdater d newHazard =
     (case d of
        None \<Rightarrow> Inl TypeError
      | Some dat \<Rightarrow>
          (case d_features dat of
             None \<Rightarrow> Inl TypeError
           | Some fs \<Rightarrow>
               Inr \<lparr>d_type = d_type dat, d_features = Some (fs @ [newHazard]), d_geojson = None\<rparr>))"

text \<open>
  The request of a submit made in state \<open>st0\<close> resolves in state \<open>st\<close>: the success
  notification is shown and the value of the updater, when it returns one, replaces the cached
  \<^verbatim>\<open>data\<close>.
\<close>

definition saveHazardResolved :: "app_state \<Rightarrow> app_state \<Rightarrow> feature \<Rightarrow> app_state" where
  "saveHazardResolved st0 st newHazard =
     (let st1 = st\<lparr>toasts := toasts st @ [ToastSuccess ''Successfully saved hazard.'' 5000]\<rparr> in
      case hazardsUpdater (data st0) newHazard of
        Inl _ \<Rightarrow> st1
      | Inr d \<Rightarrow> st1\<lparr>data := Some d\<rparr>)"

text \<open>
  The features that the render hands to the map:
  \<^verbatim>\<open>data && data.geojson.features.length > 0 && <Source data={data.geojson}>\<close>.
  Nothing is drawn while \<^verbatim>\<open>data\<close> is undefined or the sequence is empty; reading
  \<^verbatim>\<open>features\<close> of an undefined \<^verbatim>\<open>geojson\<close> throws.
\<close>

definition renderedFeatures :: "app_state \<Rightarrow> js_error + feature list" where
  "renderedFeatures st =
     (case data st of
        None \<Rightarrow> Inr []
      | Some dat \<Rightarrow>
          (case d_geojson dat of
             None \<Rightarrow> Inl TypeError
           | Some gj \<Rightarrow> if length (gj_features gj) > 0 then Inr (gj_features gj) else Inr []))"

subsection \<open>JavaScript numbers\<close>

text \<open>
  A JavaScript number is an IEEE 754 double. \<open>Finite m e\<close> stands for the number
  \<open>m * 2 ^ e\<close>; every finite double has such a form with \<open>\<bar>m\<bar> < 2 ^ 53\<close> and
  \<open>- 1074 \<le> e \<le> 971\<close> (\<open>is_double\<close>), the subnormal ones included. \<open>Finite 0 e\<close> is
  the zero with positive sign, \<open>NegZero\<close> the zero with negative sign.
\<close>

datatype js_number = Finite int int | NegZero | PosInfinity | NegInfinity | NaN

fun is_double :: "js_number \<Rightarrow> bool" where
  "is_double (Finite m e) = (\<bar>m\<bar> < 2 ^ 53 \<and> - 1074 \<le> e \<and> e \<le> 971)"
| "is_double _ = True"

text \<open>The rational number that a finite double stands for.\<close>

fun finite_value :: "js_number \<Rightarrow> rat option" where
  "finite_value (Finite m e) = Some (of_int m * 2 powi e)"
| "finite_value NegZero = Some 0"
| "finite_value _ = None"

text \<open>The integer nearest to \<open>m / d\<close> for \<open>d > 0\<close>; a tie goes to the even one.\<close>

definition round_half_even :: "int \<Rightarrow> int \<Rightarrow> int" where
  "round_half_even m d =
     (let q = m div d; r = m mod d in
      if 2 * r < d then q
      else if 2 * r > d then q + 1
      else if even q then q else q + 1)"

text \<open>
  Rounding of the exact result \<open>m * 2 ^ e\<close> of an addition to the nearest double, ties to
  even. A mantissa of at most 53 bits is kept as it is; a longer one is cut to 53 bits. The
  exact sum of two doubles has \<open>e \<ge> - 1074\<close>, so a result in the subnormal range is always
  kept as it is. A rounded result of magnitude \<open>2 ^ 1024\<close> or more is an infinity.
\<close>

definition round64 :: "int \<Rightarrow> int \<Rightarrow> js_number" where
  "round64 m e =
     (let sh = bitlen \<bar>m\<bar> - 53;
          q = (if sh \<le> 0 then m else round_half_even m (2 ^ nat sh));
          e' = (if sh \<le> 0 then e else e + sh) in
      if 0 \<le> e' \<and> 2 ^ 1024 \<le> \<bar>q\<bar> * 2 ^ nat e'
      then (if 0 < q then PosInfinity else NegInfinity)
      else Finite q e')"

fun js_neg :: "js_number \<Rightarrow> js_number" where
  "js_neg (Finite m e) = (if m = 0 then NegZero else Finite (- m) e)"
| "js_neg NegZero = Finite 0 0"
| "js_neg PosInfinity = NegInfinity"
| "js_neg NegInfinity = PosInfinity"
| "js_neg NaN = NaN"

text \<open>
  \<^verbatim>\<open>x + y\<close>. The sum of two finite numbers is computed exactly and rounded once; an
  exact sum of zero is the positive zero, except for the sum of two negative zeros.
\<close>

fun js_add :: "js_number \<Rightarrow> js_number \<Rightarrow> js_number" where
  "js_add NaN _ = NaN"
| "js_add _ NaN = NaN"
| "js_add PosInfinity NegInfinity = NaN"
| "js_add NegInfinity PosInfinity = NaN"
| "js_add PosInfinity _ = PosInfinity"
| "js_add _ PosInfinity = PosInfinity"
| "js_add NegInfinity _ = NegInfinity"
| "js_add _ NegInfinity = NegInfinity"
| "js_add NegZero y = y"
| "js_add x NegZero = x"
| "js_add (Finite m1 e1) (Finite m2 e2) =
     (let e = min e1 e2;
          m = m1 * 2 ^ nat (e1 - e) + m2 * 2 ^ nat (e2 - e) in
      if m = 0 then Finite 0 0 else round64 m e)"

text \<open>\<^verbatim>\<open>x - y\<close> is \<^verbatim>\<open>x + (-y)\<close>.\<close>

definition js_sub :: "js_number \<Rightarrow> js_number \<Rightarrow> js_number" where
  "js_sub x y = js_add x (js_neg y)"

text \<open>\<^verbatim>\<open>Math.abs(x)\<close>\<close>

fun js_abs :: "js_number \<Rightarrow> js_number" where
  "js_abs (Finite m e) = Finite \<bar>m\<bar> e"
| "js_abs NegZero = Finite 0 0"
| "js_abs PosInfinity = PosInfinity"
| "js_abs NegInfinity = PosInfinity"
| "js_abs NaN = NaN"

text \<open>\<^verbatim>\<open>x > y\<close>: false whenever an operand is \<^verbatim>\<open>NaN\<close>; the two zeros are equal.\<close>

fun js_gt :: "js_number \<Rightarrow> js_number \<Rightarrow> bool" where
  "js_gt NaN _ = False"
| "js_gt _ NaN = False"
| "js_gt _ PosInfinity = False"
| "js_gt PosInfinity _ = True"
| "js_gt NegInfinity _ = False"
| "js_gt _ NegInfinity = True"
| "js_gt NegZero NegZero = False"
| "js_gt NegZero (Finite m e) = (m < 0)"
| "js_gt (Finite m e) NegZero = (0 < m)"
| "js_gt (Finite m1 e1) (Finite m2 e2) =
     (let e = min e1 e2 in m2 * 2 ^ nat (e2 - e) < m1 * 2 ^ nat (e1 - e))"

subsection \<open>The popup of a clicked feature\<close>

text \<open>
  The click handler copies the coordinates of the clicked feature and moves the longitude
  towards the longitude of the click:
  \<^verbatim>\<open>
  while (Math.abs(e.lngLat.lng - coordinates[0]) > 180) {
    coordinates[0] += e.lngLat.lng > coordinates[0] ? 360 : -360;
  }
  \<close>
  The loop is a recursive function into \<open>option\<close>, so that a run that never leaves the loop
  has the value \<open>None\<close>. Every operation is the operation on doubles.
\<close>

partial_function (option) popupLongitude :: "js_number \<Rightarrow> js_number \<Rightarrow> js_number option" where
  "popupLongitude clickLng c =
     (if js_gt (js_abs (js_sub clickLng c)) (Finite 180 0)
      then popupLongitude clickLng
             (js_add c (if js_gt clickLng c then Finite 360 0 else Finite (- 360) 0))
      else Some c)"

declare popupLongitude.simps [code]


text \<open>One pass through the body of the loop.\<close>

definition lngStep :: "js_number \<Rightarrow> js_number \<Rightarrow> js_number" where
  "lngStep clickLng c = js_add c (if js_gt clickLng c then Finite 360 0 else Finite (- 360) 0)"


text \<open>A finite double of magnitude at most \<open>2 ^ 52\<close>; either zero is one.\<close>

fun moderate :: "js_number \<Rightarrow> bool" where
  "moderate (Finite m e) = (is_double (Finite m e) \<and> \<bar>of_int m * 2 powi e\<bar> \<le> (2::rat) ^ 52)"
| "moderate NegZero = True"
| "moderate _ = False"

section \<open>Example states\<close>

definition example_feature :: feature where
  "example_feature =
     \<lparr>coordinates = [144.9631, -37.8136], f_hazardType = ''TREE_DOWN'',
      createdAt = ''2022-10-14T03:00:00Z''\<rparr>"

text \<open>The collection in the shape in which the render reads it.\<close>

definition fetched_data :: hazards_data where
  "fetched_data =
     \<lparr>d_type = Some ''FeatureCollection'', d_features = None,
      d_geojson = Some \<lparr>gj_features = [example_feature]\<rparr>\<rparr>"

text \<open>A logged-in user with a token, reporting a hazard of type OTHER with notes.\<close>

definition reporting_state :: app_state where
  "reporting_state =
     initial_state\<lparr>drawPoint := True, hazardType := hazardOptions ! 2, isAuthenticated := True,
                   accessToken := Some ''token'', form_notes := ''debris on shoulder'',
                   data := Some fetched_data\<rparr>"

text \<open>The map has been moved to Melbourne and zoomed in to level 10.\<close>

definition zoomed_event :: view_state where
  "zoomed_event = \<lparr>latitude = -37.8136, longitude = 144.9631, zoom = 10\<rparr>"

section \<open>Auxiliary facts\<close>

lemma find_hazard_option:
  "find (\<lambda>option. opt_value option = v) hazardOptions =
     (if v = ''FLOODED_ROAD'' then Some (hazardOptions ! 0)
      else if v = ''TREE_DOWN'' then Some (hazardOptions ! 1)
      else if v = ''OTHER'' then Some (hazardOptions ! 2) else None)"
  by (simp add: hazardOptions_def)

lemma hazard_option_values:
  "image opt_value (set hazardOptions) = {''FLOODED_ROAD'', ''TREE_DOWN'', ''OTHER''}"
  by (simp add: hazardOptions_def)

subsection \<open>Exact operations on doubles\<close>

text \<open>
  The value of a sum whose mantissa fits into 53 bits is the exact sum, and the order of
  finite doubles is the order of their values.
\<close>

lemma pow_split:
  fixes e e1 :: int
  assumes "e \<le> e1"
  shows "(2::rat) powi e1 = 2 ^ nat (e1 - e) * 2 powi e"
proof -
  have "(2::rat) powi e1 = 2 powi ((e1 - e) + e)" by simp
  also have "\<dots> = 2 powi (e1 - e) * 2 powi e" by (rule power_int_add) simp
  also have "2 powi (e1 - e) = (2::rat) ^ nat (e1 - e)"
    using assms by (simp add: power_int_nonneg_exp)
  finally show ?thesis .
qed

lemma aligned_sum:
  fixes e1 e2 :: int
  defines "e \<equiv> min e1 e2"
  shows "of_int (m1 * 2 ^ nat (e1 - e) + m2 * 2 ^ nat (e2 - e)) * (2::rat) powi e =
         of_int m1 * 2 powi e1 + of_int m2 * 2 powi e2"
proof -
  have "e \<le> e1" "e \<le> e2" by (simp_all add: e_def)
  then show ?thesis
    by (simp add: pow_split [of e e1] pow_split [of e e2] algebra_simps)
qed

lemma mantissa_bound:
  fixes M e :: int
  assumes "\<bar>of_int M * (2::rat) powi e\<bar> < 2 powi (e + 53)"
  shows "\<bar>M\<bar> < 2 ^ 53"
proof -
  have pos: "(0::rat) < 2 powi e" by (simp add: zero_less_power_int)
  have "(2::rat) powi (e + 53) = 2 powi e * 2 ^ 53"
    by (simp add: power_int_add)
  with assms have "\<bar>of_int M\<bar> * (2::rat) powi e < 2 ^ 53 * 2 powi e"
    using pos by (simp add: abs_mult mult.commute)
  with pos have "\<bar>of_int M :: rat\<bar> < 2 ^ 53" by simp
  then have "(of_int \<bar>M\<bar> :: rat) < of_int (2 ^ 53)" by simp
  then show ?thesis by (simp only: of_int_less_iff)
qed

lemma round64_exact:
  assumes "\<bar>M\<bar> < 2 ^ 53" "e \<le> 971"
  shows "round64 M e = Finite M e"
proof -
  have sh: "bitlen \<bar>M\<bar> - 53 \<le> 0"
    using assms(1) by (simp add: bitlen_le_iff_power)
  have "\<not> (0 \<le> e \<and> (2::int) ^ 1024 \<le> \<bar>M\<bar> * 2 ^ nat e)"
  proof
    assume a: "0 \<le> e \<and> (2::int) ^ 1024 \<le> \<bar>M\<bar> * 2 ^ nat e"
    then have "nat e \<le> 971" using assms(2) by simp
    then have "(2::int) ^ nat e \<le> 2 ^ 971" by (intro power_increasing) simp_all
    then have "\<bar>M\<bar> * 2 ^ nat e \<le> \<bar>M\<bar> * 2 ^ 971" by (intro mult_left_mono) simp_all
    also have "\<dots> < 2 ^ 53 * 2 ^ 971" using assms(1) by (intro mult_strict_right_mono) simp_all
    also have "\<dots> = (2::int) ^ 1024" by (simp flip: power_add)
    finally show False using a by simp
  qed
  then have ovf: "(0 \<le> e \<and> (2::int) ^ 1024 \<le> \<bar>M\<bar> * 2 ^ nat e) = False" by simp
  show ?thesis
    unfolding round64_def Let_def by (simp only: sh ovf if_True if_False)
qed

lemma abs_value:
  "\<bar>of_int m * (2::rat) powi e\<bar> = of_int \<bar>m\<bar> * 2 powi e"
proof -
  have "(0::rat) < 2 powi e" by (simp add: zero_less_power_int)
  then show ?thesis by (simp add: abs_mult)
qed

lemma js_add_exact:
  fixes m1 e1 m2 e2 :: int
  assumes "\<bar>of_int m1 * (2::rat) powi e1 + of_int m2 * 2 powi e2\<bar> < 2 powi (min e1 e2 + 53)"
    and "min e1 e2 \<le> 971"
  shows "\<exists>m e. js_add (Finite m1 e1) (Finite m2 e2) = Finite m e \<and> min (min e1 e2) 0 \<le> e \<and> e \<le> 971 \<and>
           of_int m * (2::rat) powi e = of_int m1 * 2 powi e1 + of_int m2 * 2 powi e2"
proof -
  define e where "e = min e1 e2"
  define M where "M = m1 * 2 ^ nat (e1 - e) + m2 * 2 ^ nat (e2 - e)"
  have val: "of_int M * (2::rat) powi e = of_int m1 * 2 powi e1 + of_int m2 * 2 powi e2"
    unfolding M_def e_def by (rule aligned_sum)
  show ?thesis
  proof (cases "M = 0")
    case True
    then have "js_add (Finite m1 e1) (Finite m2 e2) = Finite 0 0"
      by (simp add: M_def e_def Let_def)
    moreover have "of_int 0 * (2::rat) powi 0 = of_int m1 * 2 powi e1 + of_int m2 * 2 powi e2"
      using val True by simp
    ultimately have "js_add (Finite m1 e1) (Finite m2 e2) = Finite 0 0 \<and> min (min e1 e2) 0 \<le> 0 \<and>
        (0::int) \<le> 971 \<and> of_int 0 * (2::rat) powi 0 = of_int m1 * 2 powi e1 + of_int m2 * 2 powi e2"
      by simp
    then show ?thesis by blast
  next
    case False
    have "\<bar>M\<bar> < 2 ^ 53"
      using assms(1) val by (intro mantissa_bound [of M e]) (simp add: e_def)
    then have "round64 M e = Finite M e"
      using assms(2) by (intro round64_exact) (simp_all add: e_def)
    with False have "js_add (Finite m1 e1) (Finite m2 e2) = Finite M e"
      by (simp add: M_def e_def Let_def)
    moreover have "min (min e1 e2) 0 \<le> e" unfolding e_def by linarith
    moreover have "e \<le> 971" using assms(2) by (simp add: e_def)
    ultimately have "js_add (Finite m1 e1) (Finite m2 e2) = Finite M e \<and> min (min e1 e2) 0 \<le> e \<and>
        e \<le> 971 \<and> of_int M * (2::rat) powi e = of_int m1 * 2 powi e1 + of_int m2 * 2 powi e2"
      using val by blast
    then show ?thesis by blast
  qed
qed

lemma js_gt_iff:
  "js_gt (Finite m1 e1) (Finite m2 e2) \<longleftrightarrow>
     of_int m2 * (2::rat) powi e2 < of_int m1 * 2 powi e1"
proof -
  define e where "e = min e1 e2"
  have le: "e \<le> e1" "e \<le> e2" by (simp_all add: e_def)
  have pos: "(0::rat) < 2 powi e" by (simp add: zero_less_power_int)
  have "js_gt (Finite m1 e1) (Finite m2 e2) \<longleftrightarrow> m2 * 2 ^ nat (e2 - e) < m1 * 2 ^ nat (e1 - e)"
    by (simp add: e_def Let_def)
  also have "\<dots> \<longleftrightarrow> (of_int (m2 * 2 ^ nat (e2 - e)) :: rat) < of_int (m1 * 2 ^ nat (e1 - e))"
    by (simp only: of_int_less_iff)
  also have "\<dots> \<longleftrightarrow> (of_int (m2 * 2 ^ nat (e2 - e)) :: rat) * 2 powi e < of_int (m1 * 2 ^ nat (e1 - e)) * 2 powi e"
    using pos by simp
  also have "\<dots> \<longleftrightarrow> of_int m2 * (2::rat) powi e2 < of_int m1 * 2 powi e1"
    using le by (simp add: pow_split [of e e1] pow_split [of e e2] mult.assoc)
  finally show ?thesis .
qed

subsection \<open>The loop where its operations are exact\<close>



lemma popupLongitude_unfold:
  "popupLongitude L c =
     (if js_gt (js_abs (js_sub L c)) (Finite 180 0) then popupLongitude L (lngStep L c) else Some c)"
  by (subst popupLongitude.simps) (simp add: lngStep_def)




subsection \<open>Rounded operations on doubles\<close>

text \<open>
  Rounding to the nearest integer errs by at most a half and is monotone; so a rounded sum of
  magnitude at most \<open>2 ^ 53\<close> errs by at most 1 and does not cross 180.
\<close>

lemma rhe_decomp:
  fixes m d :: int
  assumes "0 < d"
  shows "round_half_even m d = m div d \<or> round_half_even m d = m div d + 1"
  by (simp add: round_half_even_def Let_def)

lemma rhe_err:
  fixes m d :: int
  assumes "0 < d"
  shows "2 * \<bar>round_half_even m d * d - m\<bar> \<le> d"
proof -
  define q r where "q = m div d" and "r = m mod d"
  have m: "m = q * d + r" by (simp add: q_def r_def)
  have r: "0 \<le> r" "r < d" using assms by (simp_all add: r_def)
  have "round_half_even m d = (if 2 * r < d then q else if 2 * r > d then q + 1
      else if even q then q else q + 1)"
    by (simp add: round_half_even_def Let_def q_def r_def)
  then show ?thesis using r by (auto simp: m algebra_simps)
qed

lemma rhe_le:
  fixes m d n :: int
  assumes "0 < d" "m \<le> n * d"
  shows "round_half_even m d \<le> n"
proof -
  define q r where "q = m div d" and "r = m mod d"
  have m: "m = q * d + r" by (simp add: q_def r_def)
  have r: "0 \<le> r" "r < d" using assms by (simp_all add: r_def)
  have rhe: "round_half_even m d = (if 2 * r < d then q else if 2 * r > d then q + 1
      else if even q then q else q + 1)"
    by (simp add: round_half_even_def Let_def q_def r_def)
  have "q * d \<le> n * d" using assms(2) m r by linarith
  then have qn: "q \<le> n" using assms(1) by simp
  show ?thesis
  proof (cases "q = n")
    case True
    then have "r = 0" using assms(2) m r by simp
    then show ?thesis using rhe True assms(1) by simp
  next
    case False
    with qn have "q + 1 \<le> n" by simp
    then show ?thesis using rhe by auto
  qed
qed

lemma rhe_ge:
  fixes m d n :: int
  assumes "0 < d" "n * d \<le> m"
  shows "n \<le> round_half_even m d"
proof -
  have "(n * d) div d \<le> m div d" using assms by (intro zdiv_mono1)
  then have "n \<le> m div d" using assms(1) by simp
  then show ?thesis using rhe_decomp [OF assms(1), of m] by linarith
qed

lemma scale_mono:
  fixes a b e :: int
  assumes "a \<le> b"
  shows "of_int a * (2::rat) powi e \<le> of_int b * 2 powi e"
proof -
  have "(of_int a :: rat) \<le> of_int b" using assms by simp
  moreover have "(0::rat) \<le> 2 powi e" by (simp add: zero_le_power_int)
  ultimately show ?thesis by (rule mult_right_mono)
qed

lemma no_overflow:
  fixes q e :: int
  assumes "\<bar>of_int q * (2::rat) powi e\<bar> \<le> 2 ^ 54"
  shows "\<not> (0 \<le> e \<and> (2::int) ^ 1024 \<le> \<bar>q\<bar> * 2 ^ nat e)"
proof
  assume a: "0 \<le> e \<and> (2::int) ^ 1024 \<le> \<bar>q\<bar> * 2 ^ nat e"
  then have "(of_int ((2::int) ^ 1024) :: rat) \<le> of_int (\<bar>q\<bar> * 2 ^ nat e)"
    by (simp only: of_int_le_iff)
  also have "\<dots> = of_int \<bar>q\<bar> * (2::rat) powi e"
    using a by (simp add: power_int_nonneg_exp)
  also have "\<dots> = \<bar>of_int q * (2::rat) powi e\<bar>"
    by (simp only: abs_value)
  also have "\<dots> \<le> 2 ^ 54" by (rule assms)
  finally show False by simp
qed

lemma round64_rounded:
  fixes M e :: int
  assumes sh: "53 < bitlen \<bar>M\<bar>" and bound: "\<bar>of_int M * (2::rat) powi e\<bar> \<le> 2 ^ 53"
  shows "\<exists>q e'. round64 M e = Finite q e' \<and> \<bar>q\<bar> \<le> 2 ^ 53 \<and>
           \<bar>of_int q * (2::rat) powi e' - of_int M * 2 powi e\<bar> \<le> 1 \<and>
           (\<bar>of_int M * (2::rat) powi e\<bar> \<le> 180 \<longrightarrow> \<bar>of_int q * (2::rat) powi e'\<bar> \<le> 180)"
proof -
  define s where "s = nat (bitlen \<bar>M\<bar> - 53)"
  define d :: int where "d = 2 ^ s"
  define q where "q = round_half_even M d"
  define e' where "e' = e + int s"
  have s: "0 < s" "bitlen \<bar>M\<bar> - 53 = int s" using sh by (simp_all add: s_def)
  have d: "0 < d" by (simp add: d_def)
  have Mpos: "0 < \<bar>M\<bar>" using sh by (cases "M = 0") auto
  have n1: "nat (bitlen \<bar>M\<bar> - 1) = 52 + s" and n2: "nat (bitlen \<bar>M\<bar>) = 53 + s"
    using s(2) by linarith+
  from bitlen_bounds [OF Mpos] have lo: "2 ^ 52 * d \<le> \<bar>M\<bar>" and hi: "\<bar>M\<bar> < 2 ^ 53 * d"
    by (simp_all add: n1 n2 d_def power_add)
  have pe: "(0::rat) < 2 powi e" by (simp add: zero_less_power_int)
  have pe': "(2::rat) powi e' = of_int d * 2 powi e"
    by (simp add: e'_def d_def power_int_add mult.commute)
  \<comment> \<open>the quantum is at most 2\<close>
  have "of_int (2 ^ 52 * d) * (2::rat) powi e \<le> of_int \<bar>M\<bar> * 2 powi e"
    using lo pe by (simp only: mult_le_cancel_right_pos of_int_le_iff)
  also have "\<dots> \<le> 2 ^ 53" using bound by (simp add: abs_value)
  finally have quantum: "(2::rat) powi e' \<le> 2" by (simp add: pe')
  \<comment> \<open>the mantissa\<close>
  have "M \<le> 2 ^ 53 * d" "- (2 ^ 53) * d \<le> M" using hi by linarith+
  then have qb: "q \<le> 2 ^ 53" "- (2 ^ 53) \<le> q"
    unfolding q_def using rhe_le [OF d, of M "2 ^ 53"] rhe_ge [OF d, of "- (2 ^ 53)" M] by simp_all
  then have qabs: "\<bar>q\<bar> \<le> 2 ^ 53" by linarith
  \<comment> \<open>the error\<close>
  have "of_int q * (2::rat) powi e' - of_int M * 2 powi e = of_int (q * d - M) * 2 powi e"
    by (simp add: pe' algebra_simps)
  then have "\<bar>of_int q * (2::rat) powi e' - of_int M * 2 powi e\<bar> = \<bar>of_int (q * d - M) * 2 powi e\<bar>"
    by (simp only:)
  also have "\<dots> = of_int \<bar>q * d - M\<bar> * 2 powi e"
    by (rule abs_value)
  also have "\<dots> \<le> (of_int d / 2) * 2 powi e"
  proof -
    have "2 * \<bar>q * d - M\<bar> \<le> d" unfolding q_def by (rule rhe_err [OF d])
    then have "(of_int (2 * \<bar>q * d - M\<bar>) :: rat) \<le> of_int d" by (simp only: of_int_le_iff)
    then have "(of_int \<bar>q * d - M\<bar> :: rat) \<le> of_int d / 2" by simp
    then show ?thesis using pe by (simp only: mult_le_cancel_right_pos)
  qed
  also have "\<dots> = 2 powi e' / 2" by (simp add: pe')
  also have "\<dots> \<le> 1" using quantum by simp
  finally have err: "\<bar>of_int q * (2::rat) powi e' - of_int M * 2 powi e\<bar> \<le> 1" .
  \<comment> \<open>no overflow\<close>
  have "\<bar>of_int q * (2::rat) powi e'\<bar> = of_int \<bar>q\<bar> * 2 powi e'" by (rule abs_value)
  also have "\<dots> \<le> of_int (2 ^ 53) * 2 powi e'"
    using qabs by (rule scale_mono)
  also have "\<dots> \<le> 2 ^ 53 * 2" using quantum by simp
  finally have "\<bar>of_int q * (2::rat) powi e'\<bar> \<le> 2 ^ 54" by simp
  then have novf: "(0 \<le> e' \<and> (2::int) ^ 1024 \<le> \<bar>q\<bar> * 2 ^ nat e') = False"
    using no_overflow [of q e'] by simp
  have sh': "(bitlen \<bar>M\<bar> - 53 \<le> 0) = False" using sh by simp
  have r: "round64 M e = Finite q e'"
    unfolding round64_def Let_def
    by (simp only: sh' if_False flip: s_def d_def q_def) (simp only: s(2) flip: e'_def, simp only: novf if_False)
  \<comment> \<open>rounding does not cross 180\<close>
  have anchor: "\<bar>of_int q * (2::rat) powi e'\<bar> \<le> 180" if x: "\<bar>of_int M * (2::rat) powi e\<bar> \<le> 180"
  proof -
    have "of_int (2 ^ 52 * d) * (2::rat) powi e \<le> of_int \<bar>M\<bar> * 2 powi e"
      using lo pe by (simp only: mult_le_cancel_right_pos of_int_le_iff)
    also have "\<dots> \<le> 180" using x by (simp add: abs_value)
    finally have small: "(2::rat) powi e' < 1" by (simp add: pe')
    have neg: "e' < 0"
    proof (rule ccontr)
      assume "\<not> e' < 0"
      then have "(1::rat) \<le> 2 powi e'" by (simp add: power_int_nonneg_exp)
      with small show False by simp
    qed
    define n :: int where "n = 180 * 2 ^ nat (- e')"
    have "(2::rat) powi e' * 2 ^ nat (- e') = 1"
      using neg by (simp add: power_int_def field_simps)
    then have "(2::rat) ^ nat (- e') * 2 powi e' = 1" by (simp only: mult.commute)
    then have n: "of_int n * (2::rat) powi e' = 180" by (simp add: n_def)
    have "of_int \<bar>M\<bar> * (2::rat) powi e \<le> of_int n * (of_int d * 2 powi e)"
      using x n by (simp add: abs_value pe')
    then have "(of_int \<bar>M\<bar> :: rat) \<le> of_int (n * d)" using pe by simp
    then have "\<bar>M\<bar> \<le> n * d" by (simp only: of_int_le_iff)
    then have "M \<le> n * d" "(- n) * d \<le> M" by linarith+
    then have "q \<le> n" "- n \<le> q"
      unfolding q_def using rhe_le [OF d, of M n] rhe_ge [OF d, of "- n" M] by simp_all
    then have "\<bar>q\<bar> \<le> n" by linarith
    then have "of_int \<bar>q\<bar> * (2::rat) powi e' \<le> of_int n * 2 powi e'"
      by (rule scale_mono)
    then show ?thesis by (simp add: abs_value n)
  qed
  from r qabs err anchor show ?thesis by blast
qed

lemma js_add_value:
  fixes m1 e1 m2 e2 :: int
  assumes "\<bar>of_int m1 * (2::rat) powi e1 + of_int m2 * 2 powi e2\<bar> \<le> 2 ^ 53"
  shows "\<exists>q e'. js_add (Finite m1 e1) (Finite m2 e2) = Finite q e' \<and> \<bar>q\<bar> \<le> 2 ^ 53 \<and>
     \<bar>of_int q * (2::rat) powi e' - (of_int m1 * 2 powi e1 + of_int m2 * 2 powi e2)\<bar> \<le> 1 \<and>
     (\<bar>of_int m1 * (2::rat) powi e1 + of_int m2 * 2 powi e2\<bar> \<le> 180 \<longrightarrow>
        \<bar>of_int q * (2::rat) powi e'\<bar> \<le> 180)"
proof -
  define e where "e = min e1 e2"
  define M where "M = m1 * 2 ^ nat (e1 - e) + m2 * 2 ^ nat (e2 - e)"
  let ?x = "of_int m1 * (2::rat) powi e1 + of_int m2 * 2 powi e2"
  have val: "of_int M * (2::rat) powi e = ?x"
    unfolding M_def e_def by (rule aligned_sum)
  have add: "js_add (Finite m1 e1) (Finite m2 e2) = (if M = 0 then Finite 0 0 else round64 M e)"
    by (simp add: M_def e_def Let_def)
  consider "M = 0" | "M \<noteq> 0" "bitlen \<bar>M\<bar> \<le> 53" | "53 < bitlen \<bar>M\<bar>" by linarith
  then show ?thesis
  proof cases
    case 1
    then have "?x = 0" using val by simp
    then have "js_add (Finite m1 e1) (Finite m2 e2) = Finite 0 0 \<and> \<bar>0::int\<bar> \<le> 2 ^ 53 \<and>
       \<bar>of_int 0 * (2::rat) powi 0 - ?x\<bar> \<le> 1 \<and> (\<bar>?x\<bar> \<le> 180 \<longrightarrow> \<bar>of_int 0 * (2::rat) powi 0\<bar> \<le> 180)"
      using add 1 by simp
    then show ?thesis by blast
  next
    case 2
    have sh: "(bitlen \<bar>M\<bar> - 53 \<le> 0) = True" using 2(2) by simp
    have "\<bar>of_int M * (2::rat) powi e\<bar> \<le> 2 ^ 54" using assms val by simp
    then have novf: "(0 \<le> e \<and> (2::int) ^ 1024 \<le> \<bar>M\<bar> * 2 ^ nat e) = False"
      using no_overflow [of M e] by simp
    have "round64 M e = Finite M e"
      unfolding round64_def Let_def by (simp only: sh novf if_True if_False)
    moreover have "\<bar>M\<bar> \<le> 2 ^ 53" using 2(2) by (simp add: bitlen_le_iff_power)
    ultimately have "js_add (Finite m1 e1) (Finite m2 e2) = Finite M e \<and> \<bar>M\<bar> \<le> 2 ^ 53 \<and>
       \<bar>of_int M * (2::rat) powi e - ?x\<bar> \<le> 1 \<and> (\<bar>?x\<bar> \<le> 180 \<longrightarrow> \<bar>of_int M * (2::rat) powi e\<bar> \<le> 180)"
      using add 2(1) val by simp
    then show ?thesis by blast
  next
    case 3
    then have "M \<noteq> 0" by auto
    moreover from round64_rounded [OF 3, of e] assms val
    obtain q e' where "round64 M e = Finite q e'" "\<bar>q\<bar> \<le> 2 ^ 53"
       "\<bar>of_int q * (2::rat) powi e' - of_int M * 2 powi e\<bar> \<le> 1"
       "\<bar>of_int M * (2::rat) powi e\<bar> \<le> 180 \<longrightarrow> \<bar>of_int q * (2::rat) powi e'\<bar> \<le> 180"
      by auto
    ultimately have "js_add (Finite m1 e1) (Finite m2 e2) = Finite q e' \<and> \<bar>q\<bar> \<le> 2 ^ 53 \<and>
       \<bar>of_int q * (2::rat) powi e' - ?x\<bar> \<le> 1 \<and> (\<bar>?x\<bar> \<le> 180 \<longrightarrow> \<bar>of_int q * (2::rat) powi e'\<bar> \<le> 180)"
      using add val by simp
    then show ?thesis by blast
  qed
qed

text \<open>A sum of smaller magnitude than its first operand is exact.\<close>

lemma js_add_reducing:
  fixes m e d :: int
  assumes m: "\<bar>m\<bar> \<le> 2 ^ 53" and b: "\<bar>of_int m * (2::rat) powi e\<bar> \<le> 2 ^ 53"
    and red: "\<bar>of_int m * (2::rat) powi e + of_int d\<bar> < \<bar>of_int m * (2::rat) powi e\<bar>"
  shows "\<exists>q e'. js_add (Finite m e) (Finite d 0) = Finite q e' \<and>
           of_int q * (2::rat) powi e' = of_int m * 2 powi e + of_int d"
proof -
  have "\<bar>of_int m * (2::rat) powi e + of_int d * 2 powi 0\<bar> < 2 powi (min e 0 + 53)"
  proof (cases "0 \<le> e")
    case True
    then have "min e 0 = 0" by simp
    then show ?thesis using red b by simp
  next
    case False
    then have "min e 0 = e" by simp
    moreover have "\<bar>of_int m * (2::rat) powi e\<bar> \<le> 2 powi (e + 53)"
    proof -
      have "\<bar>of_int m * (2::rat) powi e\<bar> = of_int \<bar>m\<bar> * 2 powi e" by (rule abs_value)
      also have "\<dots> \<le> of_int (2 ^ 53) * 2 powi e" using m by (rule scale_mono)
      also have "\<dots> = 2 powi (e + 53)" by (simp add: power_int_add mult.commute)
      finally show ?thesis .
    qed
    ultimately show ?thesis using red by simp
  qed
  moreover have "min e 0 \<le> 971" by simp
  ultimately obtain q e' where "js_add (Finite m e) (Finite d 0) = Finite q e'"
     "of_int q * (2::rat) powi e' = of_int m * 2 powi e + of_int d * 2 powi 0"
    using js_add_exact [of m e d 0] by blast
  then have "js_add (Finite m e) (Finite d 0) = Finite q e' \<and>
           of_int q * (2::rat) powi e' = of_int m * 2 powi e + of_int d"
    by simp
  then show ?thesis by blast
qed

subsection \<open>The loop on doubles of magnitude at most \<open>2 ^ 52\<close>\<close>

text \<open>
  When the loop is entered, the true gap exceeds 180. A pass moves the longitude towards the
  click by 360, up to an error of 1. Either the gap shrinks by at least 359, or the pass has
  jumped over the click; then it was a rounded pass away from zero, the next pass goes back
  towards zero and is exact, and the loop is left after it.
\<close>

lemma guard_sound:
  fixes mL eL m e :: int
  assumes "\<bar>of_int mL * (2::rat) powi eL - of_int m * 2 powi e\<bar> \<le> 2 ^ 53"
    and "js_gt (js_abs (js_sub (Finite mL eL) (Finite m e))) (Finite 180 0)"
  shows "180 < \<bar>of_int mL * (2::rat) powi eL - of_int m * 2 powi e\<bar>"
proof (cases "m = 0")
  case True
  then have "js_abs (js_sub (Finite mL eL) (Finite m e)) = Finite \<bar>mL\<bar> eL"
    by (simp add: js_sub_def)
  with assms(2) show ?thesis
    using True by (simp add: js_gt_iff abs_value del: js_gt.simps)
next
  case False
  have "\<bar>of_int mL * (2::rat) powi eL + of_int (- m) * 2 powi e\<bar> \<le> 2 ^ 53"
    using assms(1) by simp
  from js_add_value [OF this]
  obtain q e' where r: "js_add (Finite mL eL) (Finite (- m) e) = Finite q e'"
    "\<bar>of_int mL * (2::rat) powi eL + of_int (- m) * 2 powi e\<bar> \<le> 180 \<longrightarrow>
       \<bar>of_int q * (2::rat) powi e'\<bar> \<le> 180"
    by blast
  have "js_abs (js_sub (Finite mL eL) (Finite m e)) = Finite \<bar>q\<bar> e'"
    using False r(1) by (simp add: js_sub_def)
  with assms(2) have "180 < of_int \<bar>q\<bar> * (2::rat) powi e'"
    by (simp add: js_gt_iff del: js_gt.simps)
  then have "180 < \<bar>of_int q * (2::rat) powi e'\<bar>" by (simp only: abs_value)
  with r(2) show ?thesis by auto
qed

lemma guard_sound_negzero:
  fixes m e :: int
  assumes "js_gt (js_abs (js_sub NegZero (Finite m e))) (Finite 180 0)"
  shows "180 < \<bar>0 - of_int m * (2::rat) powi e\<bar>"
proof (cases "m = 0")
  case True
  with assms show ?thesis by (simp add: js_sub_def)
next
  case False
  then have "js_abs (js_sub NegZero (Finite m e)) = Finite \<bar>m\<bar> e"
    by (simp add: js_sub_def)
  with assms have "180 < of_int \<bar>m\<bar> * (2::rat) powi e"
    by (simp add: js_gt_iff del: js_gt.simps)
  then show ?thesis by (simp add: abs_value)
qed

lemma js_gt_negzero:
  "js_gt NegZero (Finite m e) \<longleftrightarrow> of_int m * (2::rat) powi e < 0"
proof -
  have "(0::rat) < 2 powi e" by (simp add: zero_less_power_int)
  then have "\<not> (2::rat) powi e < 0" by linarith
  then show ?thesis by (simp add: mult_less_0_iff)
qed

lemma lngStep_value:
  fixes m e :: int and vL :: rat
  assumes D: "js_gt L (Finite m e) \<longleftrightarrow> of_int m * (2::rat) powi e < vL"
    and m: "\<bar>m\<bar> \<le> 2 ^ 53" and b: "\<bar>of_int m * (2::rat) powi e\<bar> \<le> 2 ^ 52 + 181"
    and d: "d = (if of_int m * (2::rat) powi e < vL then 360 else - 360)"
  shows "\<exists>q e'. lngStep L (Finite m e) = Finite q e' \<and> \<bar>q\<bar> \<le> 2 ^ 53 \<and>
           \<bar>of_int q * (2::rat) powi e' - (of_int m * 2 powi e + of_int d)\<bar> \<le> 1 \<and>
           (\<bar>of_int m * (2::rat) powi e + of_int d\<bar> < \<bar>of_int m * (2::rat) powi e\<bar> \<longrightarrow>
              of_int q * (2::rat) powi e' = of_int m * 2 powi e + of_int d)"
proof -
  let ?vc = "of_int m * (2::rat) powi e"
  have step: "lngStep L (Finite m e) = js_add (Finite m e) (Finite d 0)"
    using D by (simp add: lngStep_def d del: js_add.simps)
  have dd: "\<bar>of_int d :: rat\<bar> = 360" by (simp add: d)
  have "\<bar>?vc + of_int d\<bar> \<le> \<bar>?vc\<bar> + \<bar>of_int d :: rat\<bar>" by (rule abs_triangle_ineq)
  also have "\<dots> \<le> 2 ^ 52 + 181 + 360" using b dd by simp
  also have "\<dots> \<le> 2 ^ 53" by simp
  finally have "\<bar>?vc + of_int d * 2 powi 0\<bar> \<le> 2 ^ 53" by simp
  from js_add_value [OF this]
  obtain q e' where r: "js_add (Finite m e) (Finite d 0) = Finite q e'" "\<bar>q\<bar> \<le> 2 ^ 53"
     "\<bar>of_int q * (2::rat) powi e' - (?vc + of_int d)\<bar> \<le> 1"
    by auto
  have "of_int q * (2::rat) powi e' = ?vc + of_int d" if "\<bar>?vc + of_int d\<bar> < \<bar>?vc\<bar>"
  proof -
    have "\<bar>?vc\<bar> \<le> 2 ^ 53" using b by simp
    from js_add_reducing [OF m this that] r(1) show ?thesis by auto
  qed
  with r step show ?thesis by auto
qed

lemma ceiling_drop:
  fixes a b :: rat
  assumes "0 \<le> b" "b + 1 \<le> a"
  shows "nat \<lceil>b\<rceil> < nat \<lceil>a\<rceil>"
proof -
  have "\<lceil>b\<rceil> < \<lceil>a\<rceil>" using assms by linarith
  moreover have "0 \<le> \<lceil>b\<rceil>" using assms(1) by linarith
  ultimately show ?thesis by linarith
qed

lemma loop_progress:
  fixes m e :: int and vL :: rat
  assumes vL: "\<bar>vL\<bar> \<le> 2 ^ 52"
    and G: "\<And>m e. \<bar>vL - of_int m * (2::rat) powi e\<bar> \<le> 2 ^ 53 \<Longrightarrow>
              js_gt (js_abs (js_sub L (Finite m e))) (Finite 180 0) \<Longrightarrow>
              180 < \<bar>vL - of_int m * (2::rat) powi e\<bar>"
    and D: "\<And>m e. js_gt L (Finite m e) \<longleftrightarrow> of_int m * (2::rat) powi e < vL"
    and inv: "\<bar>m\<bar> \<le> 2 ^ 53" "\<bar>of_int m * (2::rat) powi e\<bar> \<le> 2 ^ 52 + 181"
      "\<bar>vL - of_int m * (2::rat) powi e\<bar> \<le> 2 ^ 53"
    and g: "js_gt (js_abs (js_sub L (Finite m e))) (Finite 180 0)"
  shows "\<exists>q e'. lngStep L (Finite m e) = Finite q e' \<and> \<bar>q\<bar> \<le> 2 ^ 53 \<and>
      \<bar>of_int q * (2::rat) powi e'\<bar> \<le> 2 ^ 52 + 181 \<and>
      \<bar>vL - of_int q * (2::rat) powi e'\<bar> \<le> 2 ^ 53 \<and>
      (\<not> js_gt (js_abs (js_sub L (Finite q e'))) (Finite 180 0) \<or>
       nat \<lceil>\<bar>vL - of_int q * (2::rat) powi e'\<bar>\<rceil> < nat \<lceil>\<bar>vL - of_int m * (2::rat) powi e\<bar>\<rceil> \<or>
       (\<exists>q2 e2. lngStep L (Finite q e') = Finite q2 e2 \<and>
          \<not> js_gt (js_abs (js_sub L (Finite q2 e2))) (Finite 180 0)))"
proof -
  let ?vc = "of_int m * (2::rat) powi e"
  have gap: "180 < \<bar>vL - ?vc\<bar>" using G [OF inv(3) g] .
  define d :: int where "d = (if ?vc < vL then 360 else - 360)"
  from lngStep_value [OF D inv(1,2) d_def]
  obtain q e' where s: "lngStep L (Finite m e) = Finite q e'" "\<bar>q\<bar> \<le> 2 ^ 53"
     "\<bar>of_int q * (2::rat) powi e' - (?vc + of_int d)\<bar> \<le> 1"
     "\<bar>?vc + of_int d\<bar> < \<bar>?vc\<bar> \<Longrightarrow> of_int q * (2::rat) powi e' = ?vc + of_int d"
    by blast
  let ?v1 = "of_int q * (2::rat) powi e'"
  have b1: "\<bar>?v1\<bar> \<le> 2 ^ 52 + 181"
    using s(3) gap inv(2) vL by (auto simp: d_def abs_if split: if_splits)
  have g1: "\<bar>vL - ?v1\<bar> \<le> 2 ^ 53"
    using s(3) gap inv(3) by (auto simp: d_def abs_if split: if_splits)
  have rest: "\<not> js_gt (js_abs (js_sub L (Finite q e'))) (Finite 180 0) \<or>
       nat \<lceil>\<bar>vL - ?v1\<bar>\<rceil> < nat \<lceil>\<bar>vL - ?vc\<bar>\<rceil> \<or>
       (\<exists>q2 e2. lngStep L (Finite q e') = Finite q2 e2 \<and>
          \<not> js_gt (js_abs (js_sub L (Finite q2 e2))) (Finite 180 0))"
  proof (cases "js_gt (js_abs (js_sub L (Finite q e'))) (Finite 180 0)")
    case False
    then show ?thesis by simp
  next
    case True
    have gap1: "180 < \<bar>vL - ?v1\<bar>" using G [OF g1 True] .
    show ?thesis
    proof (cases "(?vc < vL) = (?v1 < vL)")
      case True
      \<comment> \<open>still on the same side of the click: the gap has shrunk by at least 359\<close>
      have "\<bar>vL - ?v1\<bar> + 1 \<le> \<bar>vL - ?vc\<bar>"
        using True s(3) gap gap1 by (auto simp: d_def abs_if split: if_splits)
      then have "nat \<lceil>\<bar>vL - ?v1\<bar>\<rceil> < nat \<lceil>\<bar>vL - ?vc\<bar>\<rceil>"
        by (intro ceiling_drop) simp_all
      then show ?thesis by simp
    next
      case False
      \<comment> \<open>the pass has jumped over the click: it was rounded, and the next pass is exact\<close>
      have inexact: "?v1 \<noteq> ?vc + of_int d"
        using False gap gap1 by (auto simp: d_def abs_if split: if_splits)
      then have nored: "\<not> \<bar>?vc + of_int d\<bar> < \<bar>?vc\<bar>" using s(4) by blast
      define d1 :: int where "d1 = (if ?v1 < vL then 360 else - 360)"
      have red1: "\<bar>?v1 + of_int d1\<bar> < \<bar>?v1\<bar>"
        using False gap gap1 nored s(3) by (auto simp: d_def d1_def abs_if split: if_splits)
      from lngStep_value [OF D s(2) b1 d1_def] red1
      obtain q2 e2 where s2: "lngStep L (Finite q e') = Finite q2 e2"
        "of_int q2 * (2::rat) powi e2 = ?v1 + of_int d1"
        by blast
      let ?v2 = "of_int q2 * (2::rat) powi e2"
      have near: "\<bar>vL - ?v2\<bar> \<le> 180"
        using False gap gap1 s(3) s2(2) by (auto simp: d_def d1_def abs_if split: if_splits)
      then have "\<bar>vL - ?v2\<bar> \<le> 2 ^ 53" by simp
      from G [OF this] near have "\<not> js_gt (js_abs (js_sub L (Finite q2 e2))) (Finite 180 0)"
        by fastforce
      with s2(1) show ?thesis by blast
    qed
  qed
  from s(1,2) b1 g1 rest show ?thesis by blast
qed

lemma loop_returns:
  fixes m e :: int and vL :: rat
  assumes vL: "\<bar>vL\<bar> \<le> 2 ^ 52"
    and G: "\<And>m e. \<bar>vL - of_int m * (2::rat) powi e\<bar> \<le> 2 ^ 53 \<Longrightarrow>
              js_gt (js_abs (js_sub L (Finite m e))) (Finite 180 0) \<Longrightarrow>
              180 < \<bar>vL - of_int m * (2::rat) powi e\<bar>"
    and D: "\<And>m e. js_gt L (Finite m e) \<longleftrightarrow> of_int m * (2::rat) powi e < vL"
    and inv: "\<bar>m\<bar> \<le> 2 ^ 53" "\<bar>of_int m * (2::rat) powi e\<bar> \<le> 2 ^ 52 + 181"
      "\<bar>vL - of_int m * (2::rat) powi e\<bar> \<le> 2 ^ 53"
  shows "\<exists>n. popupLongitude L (Finite m e) = Some ((lngStep L ^^ n) (Finite m e)) \<and>
      \<not> js_gt (js_abs (js_sub L ((lngStep L ^^ n) (Finite m e)))) (Finite 180 0)"
  using inv
proof (induction "nat \<lceil>\<bar>vL - of_int m * (2::rat) powi e\<bar>\<rceil>" arbitrary: m e rule: less_induct)
  case less
  let ?c = "Finite m e"
  show ?case
  proof (cases "js_gt (js_abs (js_sub L ?c)) (Finite 180 0)")
    case False
    then have "popupLongitude L ?c = Some ((lngStep L ^^ 0) ?c) \<and>
      \<not> js_gt (js_abs (js_sub L ((lngStep L ^^ 0) ?c))) (Finite 180 0)"
      by (simp add: popupLongitude_unfold)
    then show ?thesis by blast
  next
    case True
    from loop_progress [OF vL G D less.prems True]
    obtain q e' where s: "lngStep L ?c = Finite q e'" "\<bar>q\<bar> \<le> 2 ^ 53"
      "\<bar>of_int q * (2::rat) powi e'\<bar> \<le> 2 ^ 52 + 181"
      "\<bar>vL - of_int q * (2::rat) powi e'\<bar> \<le> 2 ^ 53"
      "\<not> js_gt (js_abs (js_sub L (Finite q e'))) (Finite 180 0) \<or>
       nat \<lceil>\<bar>vL - of_int q * (2::rat) powi e'\<bar>\<rceil> < nat \<lceil>\<bar>vL - of_int m * (2::rat) powi e\<bar>\<rceil> \<or>
       (\<exists>q2 e2. lngStep L (Finite q e') = Finite q2 e2 \<and>
          \<not> js_gt (js_abs (js_sub L (Finite q2 e2))) (Finite 180 0))"
      by blast
    let ?c1 = "Finite q e'"
    have first: "popupLongitude L ?c = popupLongitude L ?c1"
      using True s(1) by (subst popupLongitude_unfold) simp
    have "\<exists>k. popupLongitude L ?c1 = Some ((lngStep L ^^ k) ?c1) \<and>
      \<not> js_gt (js_abs (js_sub L ((lngStep L ^^ k) ?c1))) (Finite 180 0)"
    proof (cases "js_gt (js_abs (js_sub L ?c1)) (Finite 180 0)")
      case False
      then have "popupLongitude L ?c1 = Some ((lngStep L ^^ 0) ?c1) \<and>
        \<not> js_gt (js_abs (js_sub L ((lngStep L ^^ 0) ?c1))) (Finite 180 0)"
        by (simp add: popupLongitude_unfold)
      then show ?thesis by blast
    next
      case g1: True
      show ?thesis
      proof (cases "nat \<lceil>\<bar>vL - of_int q * (2::rat) powi e'\<bar>\<rceil> < nat \<lceil>\<bar>vL - of_int m * (2::rat) powi e\<bar>\<rceil>")
        case True
        from less.hyps [OF True s(2,3,4)] show ?thesis .
      next
        case False
        with g1 s(5) obtain q2 e2 where s2: "lngStep L ?c1 = Finite q2 e2"
          "\<not> js_gt (js_abs (js_sub L (Finite q2 e2))) (Finite 180 0)"
          by blast
        have "popupLongitude L ?c1 = popupLongitude L (Finite q2 e2)"
          using g1 s2(1) by (subst popupLongitude_unfold) simp
        also have "\<dots> = Some (Finite q2 e2)"
          using s2(2) by (subst popupLongitude_unfold) simp
        finally have "popupLongitude L ?c1 = Some ((lngStep L ^^ 1) ?c1) \<and>
          \<not> js_gt (js_abs (js_sub L ((lngStep L ^^ 1) ?c1))) (Finite 180 0)"
          using s2 by simp
        then show ?thesis by blast
      qed
    qed
    then obtain k where k: "popupLongitude L ?c1 = Some ((lngStep L ^^ k) ?c1)"
      "\<not> js_gt (js_abs (js_sub L ((lngStep L ^^ k) ?c1))) (Finite 180 0)"
      by blast
    have "(lngStep L ^^ Suc k) ?c = (lngStep L ^^ k) ?c1"
      using s(1) by (simp add: funpow_swap1)
    with first k have "popupLongitude L ?c = Some ((lngStep L ^^ Suc k) ?c) \<and>
      \<not> js_gt (js_abs (js_sub L ((lngStep L ^^ Suc k) ?c))) (Finite 180 0)"
      by simp
    then show ?thesis by blast
  qed
qed

lemma loop_returns_moderate:
  fixes vL :: rat
  assumes vL: "\<bar>vL\<bar> \<le> 2 ^ 52"
    and G: "\<And>m e. \<bar>vL - of_int m * (2::rat) powi e\<bar> \<le> 2 ^ 53 \<Longrightarrow>
              js_gt (js_abs (js_sub L (Finite m e))) (Finite 180 0) \<Longrightarrow>
              180 < \<bar>vL - of_int m * (2::rat) powi e\<bar>"
    and D: "\<And>m e. js_gt L (Finite m e) \<longleftrightarrow> of_int m * (2::rat) powi e < vL"
    and F: "moderate F"
  shows "\<exists>n. popupLongitude L F = Some ((lngStep L ^^ n) F) \<and>
      \<not> js_gt (js_abs (js_sub L ((lngStep L ^^ n) F))) (Finite 180 0)"
proof (cases F)
  case (Finite m e)
  with F have "\<bar>m\<bar> \<le> 2 ^ 53" "\<bar>of_int m * (2::rat) powi e\<bar> \<le> 2 ^ 52" by simp_all
  moreover from this(2) vL have "\<bar>vL - of_int m * (2::rat) powi e\<bar> \<le> 2 ^ 53" by (simp add: abs_if split: if_splits)
  ultimately show ?thesis
    using loop_returns [OF vL G D, of m e] Finite by simp
next
  case NegZero
  show ?thesis
  proof (cases "js_gt (js_abs (js_sub L F)) (Finite 180 0)")
    case False
    then have "popupLongitude L F = Some ((lngStep L ^^ 0) F) \<and>
      \<not> js_gt (js_abs (js_sub L ((lngStep L ^^ 0) F))) (Finite 180 0)"
      by (simp add: popupLongitude_unfold)
    then show ?thesis by blast
  next
    case True
    define d :: int where "d = (if js_gt L NegZero then 360 else - 360)"
    have s: "lngStep L F = Finite d 0" by (simp add: NegZero lngStep_def d_def)
    have "\<bar>d\<bar> \<le> 2 ^ 53" "\<bar>of_int d * (2::rat) powi 0\<bar> \<le> 2 ^ 52 + 181"
      by (simp_all add: d_def)
    moreover have "\<bar>vL - of_int d * (2::rat) powi 0\<bar> \<le> 2 ^ 53"
      using vL by (simp add: d_def abs_if split: if_splits)
    ultimately obtain k where k: "popupLongitude L (Finite d 0) = Some ((lngStep L ^^ k) (Finite d 0))"
      "\<not> js_gt (js_abs (js_sub L ((lngStep L ^^ k) (Finite d 0)))) (Finite 180 0)"
      using loop_returns [OF vL G D, of d 0] by blast
    have "popupLongitude L F = popupLongitude L (Finite d 0)"
      using True s by (subst popupLongitude_unfold) simp
    moreover have "(lngStep L ^^ Suc k) F = (lngStep L ^^ k) (Finite d 0)"
      using s by (simp add: funpow_swap1)
    ultimately have "popupLongitude L F = Some ((lngStep L ^^ Suc k) F) \<and>
      \<not> js_gt (js_abs (js_sub L ((lngStep L ^^ Suc k) F))) (Finite 180 0)"
      using k by simp
    then show ?thesis by blast
  qed
qed (use F in simp_all)

subsection \<open>A run of the loop that makes no progress\<close>

text \<open>
  With a click at 0 and a feature at \<open>2 ^ 63\<close> the sum \<open>2 ^ 63 - 360\<close> rounds back to
  \<open>2 ^ 63\<close>: the loop is entered again with the same longitude.
\<close>

lemma stuck_guard:
  "js_gt (js_abs (js_sub (Finite 0 0) (Finite 1 63))) (Finite 180 0)"
  "js_gt (js_abs (js_sub (Finite 0 0) (Finite (2 ^ 53) 10))) (Finite 180 0)"
  by code_simp+

lemma stuck_step:
  "js_add (Finite 1 63) (if js_gt (Finite 0 0) (Finite 1 63) then Finite 360 0 else Finite (- 360) 0)
     = Finite (2 ^ 53) 10"
  "js_add (Finite (2 ^ 53) 10)
     (if js_gt (Finite 0 0) (Finite (2 ^ 53) 10) then Finite 360 0 else Finite (- 360) 0)
     = Finite (2 ^ 53) 10"
  by code_simp+

lemma stuck_never_returns:
  assumes "popupLongitude L c = Some y"
  shows "\<not> (L = Finite 0 0 \<and> (c = Finite 1 63 \<or> c = Finite (2 ^ 53) 10))"
proof (rule popupLongitude.raw_induct
    [where P = "\<lambda>L c y. \<not> (L = Finite 0 0 \<and> (c = Finite 1 63 \<or> c = Finite (2 ^ 53) 10))", OF _ assms])
  fix f :: "js_number \<Rightarrow> js_number \<Rightarrow> js_number option" and L c y
  assume IH: "\<And>c b y. f c b = Some y \<Longrightarrow>
      \<not> (c = Finite 0 0 \<and> (b = Finite 1 63 \<or> b = Finite (2 ^ 53) 10))"
    and eq: "(if js_gt (js_abs (js_sub L c)) (Finite 180 0)
              then f L (js_add c (if js_gt L c then Finite 360 0 else Finite (- 360) 0))
              else Some c) = Some y"
  show "\<not> (L = Finite 0 0 \<and> (c = Finite 1 63 \<or> c = Finite (2 ^ 53) 10))"
  proof
    assume a: "L = Finite 0 0 \<and> (c = Finite 1 63 \<or> c = Finite (2 ^ 53) 10)"
    then have "f (Finite 0 0) (Finite (2 ^ 53) 10) = Some y"
      using eq stuck_guard stuck_step by (auto simp only: if_True)
    with IH show False by blast
  qed
qed

section \<open>The claims\<close>

subsection \<open>C1: what a submit does to the rendered collection\<close>

text \<open>
  C1, as stated, fails. In \<open>reporting_state\<close> a token is present and the map renders the
  one fetched feature; after \<^verbatim>\<open>submitHazardForm\<close> has returned, and before the create
  request resolves, the map still renders exactly that one feature: nothing has been appended.
\<close>

theorem submit_leaves_rendered_features:
  "accessToken reporting_state = Some ''token'' \<and>
   renderedFeatures reporting_state = Inr [example_feature] \<and>
   renderedFeatures (submitHazardForm reporting_state) = Inr [example_feature]"
  by (simp add: reporting_state_def initial_state_def submitHazardForm_def resetHazardForm_def
      renderedFeatures_def fetched_data_def)

text \<open>
  C1, amended. When a user with a token submits the report form, the submit itself issues
  exactly one create request, which carries the draft (position, hazard type and notes) and the
  token, and leaves the cached collection and the rendered feature sequence as they were:
  nothing is appended before the create request resolves.
\<close>

theorem submit_defers_append:
  "accessToken st = Some tok \<Longrightarrow>
   data (submitHazardForm st) = data st \<and>
   renderedFeatures (submitHazardForm st) = renderedFeatures st \<and>
   requests (submitHazardForm st) =
     requests st @ [\<lparr>body = \<lparr>b_lat = lat st, b_lng = lng st,
                              b_hazardType = opt_value (hazardType st), b_notes = form_notes st\<rparr>,
                      token = tok\<rparr>]"
  by (simp add: submitHazardForm_def resetHazardForm_def renderedFeatures_def)

text \<open>
  C1, amended, at \<open>reporting_state\<close>, where the map renders the fetched feature: the submit
  issues the one request for the draft, and the map renders the same feature afterwards.
\<close>

theorem submit_defers_append_witness:
  "accessToken reporting_state = Some ''token'' \<and>
   data (submitHazardForm reporting_state) = Some fetched_data \<and>
   renderedFeatures reporting_state = Inr [example_feature] \<and>
   renderedFeatures (submitHazardForm reporting_state) = Inr [example_feature] \<and>
   requests (submitHazardForm reporting_state) =
     [\<lparr>body = \<lparr>b_lat = -37.5622, b_lng = 143.8503,
                 b_hazardType = ''OTHER'', b_notes = ''debris on shoulder''\<rparr>,
       token = ''token''\<rparr>]"
  using submit_defers_append [of reporting_state "''token''"]
  by (simp add: reporting_state_def initial_state_def renderedFeatures_def fetched_data_def
      hazardOptions_def)

subsection \<open>C2: leaving Reporting mode\<close>

text \<open>
  C2 demands that leaving Reporting mode resets the form, and the handler is called
  \<^verbatim>\<open>resetHazardForm\<close>, but it only leaves the mode. Reset in \<open>reporting_state\<close>
  ends Reporting mode while the hazard type is still OTHER and the notes are still there; when
  the user then enters Reporting mode again and submits, the request carries the old hazard
  type and the old notes.
\<close>

theorem reset_keeps_form:
  "drawPoint reporting_state \<and>
   \<not> drawPoint (resetHazardForm reporting_state) \<and>
   opt_value (hazardType (resetHazardForm reporting_state)) = ''OTHER'' \<and>
   form_notes (resetHazardForm reporting_state) = ''debris on shoulder'' \<and>
   drawPoint (toggleDrawPoint (resetHazardForm reporting_state)) \<and>
   map body (requests (submitHazardForm (toggleDrawPoint (resetHazardForm reporting_state)))) =
     [\<lparr>b_lat = -37.5622, b_lng = 143.8503,
       b_hazardType = ''OTHER'', b_notes = ''debris on shoulder''\<rparr>]"
  by (simp add: reporting_state_def initial_state_def resetHazardForm_def toggleDrawPoint_def
      submitHazardForm_def hazardOptions_def)

subsection \<open>C3: selecting a value that is no hazard category\<close>

text \<open>
  C3, as stated, fails. SINKHOLE is none of the categories, and selecting it in
  \<open>reporting_state\<close> changes the notes from their text to the empty string.
\<close>

theorem unknown_option_clears_notes:
  "''SINKHOLE'' \<notin> set (map opt_value hazardOptions) \<and>
   form_notes reporting_state = ''debris on shoulder'' \<and>
   form_notes (handleHazardOptionSelected reporting_state ''SINKHOLE'') = ''''"
  by (simp add: reporting_state_def initial_state_def handleHazardOptionSelected_def
      hazardOptions_def)

text \<open>
  C3, amended. For every value that is none of the hazard categories the selection never
  throws, leaves the hazard type and everything else unchanged, and clears the notes.
\<close>

theorem unknown_option_only_clears_notes:
  "v \<notin> set (map opt_value hazardOptions) \<Longrightarrow>
   handleHazardOptionSelected st v = st\<lparr>form_notes := ''''\<rparr>"
  by (simp add: handleHazardOptionSelected_def find_hazard_option hazard_option_values)

text \<open>C3, amended, at the value SINKHOLE in \<open>reporting_state\<close>.\<close>

theorem unknown_option_only_clears_notes_witness:
  "''SINKHOLE'' \<notin> set (map opt_value hazardOptions) \<and>
   handleHazardOptionSelected reporting_state ''SINKHOLE'' = reporting_state\<lparr>form_notes := ''''\<rparr>"
  using unknown_option_only_clears_notes [of "''SINKHOLE''" reporting_state]
  by (simp add: hazard_option_values)

subsection \<open>C4: entering report mode without a login\<close>

text \<open>
  C4. When the user is not authenticated, \<^verbatim>\<open>toggleDrawPoint\<close> leaves the mode as it is
  (so Browsing stays Browsing) and adds exactly one notification, the error
  \<^verbatim>\<open>Login to add a hazard.\<close>; nothing else changes.
\<close>

theorem toggle_unauthenticated:
  "\<not> isAuthenticated st \<Longrightarrow>
   drawPoint (toggleDrawPoint st) = drawPoint st \<and>
   toasts (toggleDrawPoint st) = toasts st @ [ToastError ''Login to add a hazard.'' 3000] \<and>
   length (toasts (toggleDrawPoint st)) = length (toasts st) + 1 \<and>
   toggleDrawPoint st = st\<lparr>toasts := toasts (toggleDrawPoint st)\<rparr>"
  by (simp add: toggleDrawPoint_def)

text \<open>C4 at the initial state: not authenticated, Browsing, no notification yet.\<close>

theorem toggle_unauthenticated_witness:
  "\<not> isAuthenticated initial_state \<and>
   \<not> drawPoint initial_state \<and>
   \<not> drawPoint (toggleDrawPoint initial_state) \<and>
   toasts (toggleDrawPoint initial_state) = [ToastError ''Login to add a hazard.'' 3000]"
  using toggle_unauthenticated [of initial_state]
  by (simp add: initial_state_def)

subsection \<open>C5: submitting without a token\<close>

text \<open>
  C5. Without an access token \<^verbatim>\<open>submitHazardForm\<close> issues no request, shows one error
  notification, \<^verbatim>\<open>Login to add hazards.\<close>, and changes nothing else: mode, hazard type,
  notes and the cached collection are as before.
\<close>

theorem submit_without_token:
  "accessToken st = None \<Longrightarrow>
   requests (submitHazardForm st) = requests st \<and>
   toasts (submitHazardForm st) = toasts st @ [ToastError ''Login to add hazards.'' 3000] \<and>
   drawPoint (submitHazardForm st) = drawPoint st \<and>
   hazardType (submitHazardForm st) = hazardType st \<and>
   form_notes (submitHazardForm st) = form_notes st \<and>
   data (submitHazardForm st) = data st \<and>
   submitHazardForm st = st\<lparr>toasts := toasts (submitHazardForm st)\<rparr>"
  by (simp add: submitHazardForm_def)

text \<open>
  C5 at a state in Reporting mode whose user is authenticated while the token has not arrived.
\<close>

theorem submit_without_token_witness:
  "accessToken (reporting_state\<lparr>accessToken := None\<rparr>) = None \<and>
   isAuthenticated (reporting_state\<lparr>accessToken := None\<rparr>) \<and>
   requests (submitHazardForm (reporting_state\<lparr>accessToken := None\<rparr>)) = [] \<and>
   toasts (submitHazardForm (reporting_state\<lparr>accessToken := None\<rparr>)) =
     [ToastError ''Login to add hazards.'' 3000] \<and>
   drawPoint (submitHazardForm (reporting_state\<lparr>accessToken := None\<rparr>)) \<and>
   form_notes (submitHazardForm (reporting_state\<lparr>accessToken := None\<rparr>)) = ''debris on shoulder'' \<and>
   data (submitHazardForm (reporting_state\<lparr>accessToken := None\<rparr>)) = Some fetched_data"
  using submit_without_token [of "reporting_state\<lparr>accessToken := None\<rparr>"]
  by (simp add: reporting_state_def initial_state_def)

subsection \<open>C6: the longitude of the popup\<close>




subsection \<open>C10: termination of the popup loop\<close>

text \<open>
  C10, as stated, fails. 0 and \<open>2 ^ 63\<close> are finite doubles, and for a click at 0 on a
  feature at \<open>2 ^ 63\<close> the loop never returns.
\<close>

theorem popup_longitude_stuck:
  "is_double (Finite 0 0) \<and> is_double (Finite 1 63) \<and>
   finite_value (Finite 1 63) = Some (2 ^ 63) \<and>
   popupLongitude (Finite 0 0) (Finite 1 63) = None"
proof -
  have "popupLongitude (Finite 0 0) (Finite 1 63) = None"
    using stuck_never_returns [of "Finite 0 0" "Finite 1 63"]
    by (cases "popupLongitude (Finite 0 0) (Finite 1 63)") auto
  then show ?thesis by simp
qed

text \<open>
  C10, amended. For every click longitude \<open>L\<close> and feature longitude \<open>F\<close> that are finite
  doubles of magnitude at most \<open>2 ^ 52\<close> the loop returns: after some number \<open>n\<close> of passes,
  each adding or subtracting 360 towards the click, the gap that the loop computes is no longer
  above 180, and the longitude reached is the result.
\<close>

theorem popup_longitude_terminates_moderate:
  "moderate L \<Longrightarrow> moderate F \<Longrightarrow>
   \<exists>n. popupLongitude L F = Some ((lngStep L ^^ n) F) \<and>
       \<not> js_gt (js_abs (js_sub L ((lngStep L ^^ n) F))) (Finite 180 0)"
proof -
  assume L: "moderate L" and F: "moderate F"
  show ?thesis
  proof (cases L)
    case (Finite mL eL)
    define vL :: rat where "vL = of_int mL * 2 powi eL"
    have "\<bar>vL\<bar> \<le> 2 ^ 52" using L Finite by (simp add: vL_def)
    moreover have "\<And>m e. \<bar>vL - of_int m * (2::rat) powi e\<bar> \<le> 2 ^ 53 \<Longrightarrow>
              js_gt (js_abs (js_sub L (Finite m e))) (Finite 180 0) \<Longrightarrow>
              180 < \<bar>vL - of_int m * (2::rat) powi e\<bar>"
      unfolding vL_def Finite by (rule guard_sound)
    moreover have "\<And>m e. js_gt L (Finite m e) \<longleftrightarrow> of_int m * (2::rat) powi e < vL"
      unfolding vL_def Finite by (rule js_gt_iff)
    ultimately show ?thesis using F by (intro loop_returns_moderate [where vL = vL]) simp_all
  next
    case NegZero
    have "\<And>m e. \<bar>0 - of_int m * (2::rat) powi e\<bar> \<le> 2 ^ 53 \<Longrightarrow>
              js_gt (js_abs (js_sub L (Finite m e))) (Finite 180 0) \<Longrightarrow>
              180 < \<bar>0 - of_int m * (2::rat) powi e\<bar>"
      unfolding NegZero by (rule guard_sound_negzero)
    moreover have "\<And>m e. js_gt L (Finite m e) \<longleftrightarrow> of_int m * (2::rat) powi e < 0"
      unfolding NegZero by (rule js_gt_negzero)
    ultimately show ?thesis using F by (intro loop_returns_moderate [where vL = 0]) simp_all
  qed (use L in simp_all)
qed

text \<open>
  C10, amended, for a click at 200 on a feature at the double nearest to -127.98, where the
  pass of the loop is rounded.
\<close>

theorem popup_longitude_terminates_moderate_witness:
  "moderate (Finite 200 0) \<and> moderate (Finite (- 9005791879857439) (- 46)) \<and>
   (\<exists>n. popupLongitude (Finite 200 0) (Finite (- 9005791879857439) (- 46)) =
          Some ((lngStep (Finite 200 0) ^^ n) (Finite (- 9005791879857439) (- 46))) \<and>
        \<not> js_gt (js_abs (js_sub (Finite 200 0)
                ((lngStep (Finite 200 0) ^^ n) (Finite (- 9005791879857439) (- 46))))) (Finite 180 0))"
  using popup_longitude_terminates_moderate [of "Finite 200 0" "Finite (- 9005791879857439) (- 46)"]
  by simp

subsection \<open>C7: the opacity of the heatmap\<close>

text \<open>
  C7. The stops of the opacity interpolation of the heatmap layer are 1 at zoom 7 and 0 at the
  maximal heatmap zoom, which is 9 and is also the \<^verbatim>\<open>maxzoom\<close> of the layer.
\<close>

theorem heatmap_opacity_stops:
  "heatmap_opacity (paint heatmapLayer) = Interpolate Linear Zoom [(7, 1), (MAX_HEATMAP_LEVEL, 0)] \<and>
   stops (heatmap_opacity (paint heatmapLayer)) = [(7, 1), (9, 0)] \<and>
   MAX_HEATMAP_LEVEL = 9 \<and>
   maxzoom heatmapLayer = MAX_HEATMAP_LEVEL"
  by (simp add: heatmapLayer_def MAX_HEATMAP_LEVEL_def)

subsection \<open>C8: viewport changes\<close>

text \<open>
  C8, as stated, fails. After a viewport change to zoom 10 the zoom of the component's view
  state is 4, not the zoom of the event; and the same event at zoom 3 leaves the component in
  the very same state, so the state holds no trace of the zoom of the event.
\<close>

theorem viewport_change_drops_zoom:
  "zoom zoomed_event = 10 \<and>
   zoom (initialViewState (updateMapCenterCoordinates initial_state zoomed_event)) = 4 \<and>
   updateMapCenterCoordinates initial_state (zoomed_event\<lparr>zoom := 3\<rparr>) =
     updateMapCenterCoordinates initial_state zoomed_event"
  by (simp add: initialViewState_def updateMapCenterCoordinates_def zoomed_event_def)

text \<open>
  C8, amended. Every viewport change overwrites latitude and longitude with the values of the
  event, without validation, and changes nothing else. The zoom of the event is not stored:
  the component keeps no zoom, and the zoom of its view state is the constant 4.
\<close>

theorem viewport_change_overwrites_center:
  "lat (updateMapCenterCoordinates st ev) = latitude ev \<and>
   lng (updateMapCenterCoordinates st ev) = longitude ev \<and>
   updateMapCenterCoordinates st ev = st\<lparr>lat := latitude ev, lng := longitude ev\<rparr> \<and>
   initialViewState (updateMapCenterCoordinates st ev) =
     \<lparr>latitude = latitude ev, longitude = longitude ev, zoom = 4\<rparr>"
  by (simp add: updateMapCenterCoordinates_def initialViewState_def)

subsection \<open>C9: selecting a hazard category\<close>

text \<open>
  C9. After the selection of any of the hazard categories the notes are empty, whatever they
  were before and whatever category was selected before; the selected category is stored.
\<close>

theorem valid_option_clears_notes:
  "v \<in> set (map opt_value hazardOptions) \<Longrightarrow>
   form_notes (handleHazardOptionSelected st v) = '''' \<and>
   opt_value (hazardType (handleHazardOptionSelected st v)) = v"
  by (auto simp: handleHazardOptionSelected_def find_hazard_option hazard_option_values
      hazardOptions_def)

text \<open>
  C9 in \<open>reporting_state\<close>, where the category is OTHER and notes are present: selecting
  OTHER again empties the notes.
\<close>

theorem valid_option_clears_notes_witness:
  "''OTHER'' \<in> set (map opt_value hazardOptions) \<and>
   opt_value (hazardType reporting_state) = ''OTHER'' \<and>
   form_notes reporting_state = ''debris on shoulder'' \<and>
   form_notes (handleHazardOptionSelected reporting_state ''OTHER'') = '''' \<and>
   opt_value (hazardType (handleHazardOptionSelected reporting_state ''OTHER'')) = ''OTHER''"
  using valid_option_clears_notes [of "''OTHER''" reporting_state]
  by (simp add: hazard_option_values reporting_state_def initial_state_def hazardOptions_def)

end
